theory Spec2Isabelle
  imports Main "HOL-Library.Word"
begin

section \<open>Session tickets of the ScrambleSuit server (ticket.py)\<close>

text \<open>
  The module keeps three globals (\<open>HMACKey\<close>, \<open>AESKey\<close>, \<open>creationTime\<close>), reads the
  wall clock, draws random bytes, and reads and writes one key-store file. The model threads
  all of that through a record \<open>world\<close>; every operation returns its result (an exception
  is the left summand) together with the world it leaves behind.
\<close>

subsection \<open>Byte strings\<close>

text \<open>A Python 2 \<open>str\<close> used as a byte buffer is a list of 8-bit words.\<close>

type_synonym byte = "8 word"
type_synonym bytes = "byte list"

text \<open>\<open>xs[a:b]\<close> for literal bounds \<open>0 \<le> a \<le> b\<close>: never raises, clips at the end.\<close>

definition slice :: "nat \<Rightarrow> nat \<Rightarrow> 'a list \<Rightarrow> 'a list" where
  "slice a b xs = drop a (take b xs)"

datatype error =
    AssertionError
  | TypeError
  | ValueError
  | StructError
  | OverflowError
  | UnpicklingError

subsection \<open>Module constants\<close>

definition IV_LENGTH :: nat where
  "IV_LENGTH = 16"

definition HMAC_KEY_LENGTH :: nat where
  "HMAC_KEY_LENGTH = 32"

definition AES_KEY_LENGTH :: nat where
  "AES_KEY_LENGTH = 16"

definition IDENTIFIER :: bytes where
  "IDENTIFIER = map of_char ''ScrambleSuitTicket''"

text \<open>
  Modelled from the spec: \<open>const.TICKET_LENGTH\<close> and \<open>const.MASTER_KEY_LENGTH\<close> live in the
  module \<open>const\<close>, which is not among the sources; the specification fixes a ticket at
  112 bytes and a master key at 32 bytes.
\<close>

definition TICKET_LENGTH :: nat where
  "TICKET_LENGTH = 112"

definition MASTER_KEY_LENGTH :: nat where
  "MASTER_KEY_LENGTH = 32"

text \<open>
  The two durations of \<open>const\<close> have no value in the specification ("configuration
  constants"); they are parameters of the model.
\<close>

record const =
  KEY_ROTATION_TIME :: int
  SESSION_TICKET_LIFETIME :: int

subsection \<open>What the interpreter and the libraries provide\<close>

text \<open>
  PyCrypto's AES-CBC and HMAC-SHA256 and the byte order of \<open>struct\<close>'s native format
  \<open>'I'\<close> are outside the repository. They are parameters: \<open>aes_cbc_encrypt key iv data\<close>,
  \<open>aes_cbc_decrypt key iv data\<close>, \<open>hmac_sha256 key msg\<close>.
\<close>

datatype byteorder = LittleEndian | BigEndian

record platform =
  aes_cbc_encrypt :: "bytes \<Rightarrow> bytes \<Rightarrow> bytes \<Rightarrow> bytes"
  aes_cbc_decrypt :: "bytes \<Rightarrow> bytes \<Rightarrow> bytes \<Rightarrow> bytes"
  hmac_sha256 :: "bytes \<Rightarrow> bytes \<Rightarrow> bytes"
  native_order :: byteorder

text \<open>
  The library contract the proofs rely on: under a key of 16, 24 or 32 bytes and a 16-byte
  IV, CBC maps block-aligned data to data of the same length and decryption inverts
  encryption; an HMAC-SHA256 digest has 32 bytes.
\<close>

definition aes_args_ok :: "bytes \<Rightarrow> bytes \<Rightarrow> bytes \<Rightarrow> bool" where
  "aes_args_ok k iv d \<longleftrightarrow> length k \<in> {16, 24, 32} \<and> length iv = 16 \<and> length d mod 16 = 0"

definition platform_ok :: "platform \<Rightarrow> bool" where
  "platform_ok pf \<longleftrightarrow>
     (\<forall>k iv d. aes_args_ok k iv d \<longrightarrow>
        length (aes_cbc_encrypt pf k iv d) = length d \<and>
        length (aes_cbc_decrypt pf k iv d) = length d \<and>
        aes_cbc_decrypt pf k iv (aes_cbc_encrypt pf k iv d) = d) \<and>
     (\<forall>k m. length (hmac_sha256 pf k m) = 32)"

subsection \<open>struct.pack('I', n) and struct.unpack('I', s)\<close>

text \<open>The \<open>k\<close> low-order bytes of \<open>n\<close>, least significant first, and back.\<close>

fun le_bytes :: "nat \<Rightarrow> int \<Rightarrow> bytes" where
  "le_bytes 0 n = []"
| "le_bytes (Suc k) n = of_int n # le_bytes k (n div 256)"

fun le_int :: "bytes \<Rightarrow> int" where
  "le_int [] = 0"
| "le_int (b # bs) = uint b + 256 * le_int bs"

definition struct_pack_I :: "byteorder \<Rightarrow> int \<Rightarrow> error + bytes" where
  "struct_pack_I bo n =
     (if n < 0 \<or> 4294967296 \<le> n then Inl StructError
      else Inr (case bo of LittleEndian \<Rightarrow> le_bytes 4 n | BigEndian \<Rightarrow> rev (le_bytes 4 n)))"

definition struct_unpack_I :: "byteorder \<Rightarrow> bytes \<Rightarrow> error + int" where
  "struct_unpack_I bo s =
     (if length s \<noteq> 4 then Inl StructError
      else Inr (le_int (case bo of LittleEndian \<Rightarrow> s | BigEndian \<Rightarrow> rev s)))"

subsection \<open>The world\<close>

datatype message =
    RotatingKeys
  | ReadingKeys
  | ErrorOpeningKeyFile
  | AttemptingDecrypt nat
  | HMACInvalid
  | IdentifierNotFound
  | TicketExpired int
  | TicketStillValid int
  | ReturningTicket nat

datatype event =
    LogInfo message
  | LogDebug message
  | LogError message
  | Call_HMAC_digest
  | Call_AES_new
  | Call_AES_encrypt
  | Call_AES_decrypt

text \<open>
  The key-store file: \<open>Absent\<close> when \<open>os.path.exists\<close> is false; \<open>Unreadable\<close> when it exists
  and opening it raises \<open>IOError\<close>; \<open>Stored t h a\<close> when it holds the pickled list
  \<open>[creationTime, HMACKey, AESKey]\<close>; \<open>Corrupt\<close> for any other content, on which
  \<open>pickle.load\<close> or the unpacking into three names raises something that is not an
  \<open>IOError\<close> and so is not caught.
\<close>

datatype key_file = Absent | Unreadable | Corrupt | Stored int bytes bytes

record world =
  HMACKey :: "bytes option"
  AESKey :: "bytes option"
  creationTime :: "int option"
  clock :: "nat \<Rightarrow> int"
  ticks :: nat
  entropy :: "nat \<Rightarrow> byte"
  drawn :: nat
  key_store :: key_file
  store_writable :: bool
  defaultIssueDate :: int
  trace :: "event list"

text \<open>
  \<open>clock w i\<close> is what the \<open>i\<close>-th evaluation of \<open>int(time.time())\<close> returns and \<open>ticks\<close>
  counts the evaluations so far; nothing is assumed about the readings. \<open>entropy\<close> is the
  stream of bytes the random source will deliver and \<open>drawn\<close> how many were taken.
  \<open>defaultIssueDate\<close> is the default argument of \<open>ProtocolState.__init__\<close>, which Python
  evaluates once, when the module is loaded. \<open>trace\<close> lists log lines and library calls,
  oldest first.
\<close>

definition emit :: "event \<Rightarrow> world \<Rightarrow> world" where
  "emit e w = w\<lparr>trace := trace w @ [e]\<rparr>"

definition int_time :: "world \<Rightarrow> int \<times> world" where
  "int_time w = (clock w (ticks w), w\<lparr>ticks := Suc (ticks w)\<rparr>)"

text \<open>
  Modelled from the spec: \<open>mycrypto.strong_random\<close> is not among the sources; the
  specification asks for "a cryptographically secure random byte source" delivering
  "the exact required lengths".
\<close>

definition strong_random :: "nat \<Rightarrow> world \<Rightarrow> bytes \<times> world" where
  "strong_random n w =
     (map (entropy w) [drawn w ..< drawn w + n], w\<lparr>drawn := drawn w + n\<rparr>)"

subsection \<open>Library calls as the module makes them\<close>

definition HMAC_digest ::
  "platform \<Rightarrow> bytes option \<Rightarrow> bytes \<Rightarrow> world \<Rightarrow> (error + bytes) \<times> world" where
  "HMAC_digest pf key msg w =
     (case key of
        None \<Rightarrow> (Inl TypeError, emit Call_HMAC_digest w)
      | Some k \<Rightarrow> (Inr (hmac_sha256 pf k msg), emit Call_HMAC_digest w))"

definition AES_new :: "bytes option \<Rightarrow> bytes \<Rightarrow> world \<Rightarrow> (error + bytes) \<times> world" where
  "AES_new key iv w =
     (case key of
        None \<Rightarrow> (Inl TypeError, emit Call_AES_new w)
      | Some k \<Rightarrow>
          if length k \<notin> {16, 24, 32} then (Inl ValueError, emit Call_AES_new w)
          else if length iv \<noteq> 16 then (Inl ValueError, emit Call_AES_new w)
          else (Inr k, emit Call_AES_new w))"

definition AES_encrypt ::
  "platform \<Rightarrow> bytes \<Rightarrow> bytes \<Rightarrow> bytes \<Rightarrow> world \<Rightarrow> (error + bytes) \<times> world" where
  "AES_encrypt pf k iv d w =
     (if length d mod 16 \<noteq> 0 then (Inl ValueError, emit Call_AES_encrypt w)
      else (Inr (aes_cbc_encrypt pf k iv d), emit Call_AES_encrypt w))"

definition AES_decrypt ::
  "platform \<Rightarrow> bytes \<Rightarrow> bytes \<Rightarrow> bytes \<Rightarrow> world \<Rightarrow> (error + bytes) \<times> world" where
  "AES_decrypt pf k iv d w =
     (if length d mod 16 \<noteq> 0 then (Inl ValueError, emit Call_AES_decrypt w)
      else (Inr (aes_cbc_decrypt pf k iv d), emit Call_AES_decrypt w))"

text \<open>
  \<open>str(datetime.timedelta(seconds=s))\<close> raises \<open>OverflowError\<close> when the number of days
  exceeds 999999999 in magnitude; the log lines of \<open>isValid\<close> build such a value.
\<close>

definition timedelta_ok :: "int \<Rightarrow> bool" where
  "timedelta_ok s \<longleftrightarrow> - 999999999 \<le> s div 86400 \<and> s div 86400 \<le> 999999999"

subsection \<open>Key management\<close>

definition rotateKeys :: "world \<Rightarrow> world" where
  "rotateKeys w0 =
     (let w1 = emit (LogInfo RotatingKeys) w0;
          (hk, w2) = strong_random HMAC_KEY_LENGTH w1;
          (ak, w3) = strong_random AES_KEY_LENGTH w2;
          (t, w4) = int_time w3;
          w5 = w4\<lparr>HMACKey := Some hk, AESKey := Some ak, creationTime := Some t\<rparr>
      in if store_writable w5 then w5\<lparr>key_store := Stored t hk ak\<rparr>
         else emit (LogError ErrorOpeningKeyFile) w5)"

definition loadKeys :: "world \<Rightarrow> (error + unit) \<times> world" where
  "loadKeys w0 =
     (let w1 = emit (LogInfo ReadingKeys) w0
      in case key_store w1 of
           Absent \<Rightarrow> (Inr (), rotateKeys w1)
         | Unreadable \<Rightarrow> (Inr (), emit (LogError ErrorOpeningKeyFile) w1)
         | Corrupt \<Rightarrow> (Inl UnpicklingError, w1)
         | Stored t hk ak \<Rightarrow>
             (Inr (), w1\<lparr>creationTime := Some t, HMACKey := Some hk, AESKey := Some ak\<rparr>))"

definition checkKeys :: "const \<Rightarrow> world \<Rightarrow> (error + unit) \<times> world" where
  "checkKeys c w0 =
     (case (if HMACKey w0 = None \<or> AESKey w0 = None then loadKeys w0 else (Inr (), w0)) of
        (Inl e, w1) \<Rightarrow> (Inl e, w1)
      | (Inr u, w1) \<Rightarrow>
          (let (now, w2) = int_time w1
           in case creationTime w2 of
                None \<Rightarrow> (Inl TypeError, w2)
              | Some ct \<Rightarrow>
                  if now - ct > KEY_ROTATION_TIME c then (Inr (), rotateKeys w2)
                  else (Inr (), w2)))"

subsection \<open>ProtocolState\<close>

record ProtocolState =
  identifier' :: bytes
  masterKey :: bytes
  issueDate :: int
  pad :: bytes

definition ProtocolState_init :: "bytes \<Rightarrow> int \<Rightarrow> ProtocolState" where
  "ProtocolState_init mk d =
     \<lparr>identifier' = IDENTIFIER, masterKey = mk, issueDate = d, pad = replicate 10 0\<rparr>"

definition isValid :: "const \<Rightarrow> ProtocolState \<Rightarrow> world \<Rightarrow> (error + bool) \<times> world" where
  "isValid c self w0 =
     (if issueDate self = 0 then (Inl AssertionError, w0)
      else
        let (now, w1) = int_time w0;
            lifetime = now - issueDate self
        in if lifetime > SESSION_TICKET_LIFETIME c then
             (if timedelta_ok (lifetime - SESSION_TICKET_LIFETIME c)
              then (Inr False,
                    emit (LogDebug (TicketExpired (lifetime - SESSION_TICKET_LIFETIME c))) w1)
              else (Inl OverflowError, w1))
           else
             (if timedelta_ok (SESSION_TICKET_LIFETIME c - lifetime)
              then (Inr True,
                    emit (LogDebug (TicketStillValid (SESSION_TICKET_LIFETIME c - lifetime))) w1)
              else (Inl OverflowError, w1)))"

definition ProtocolState_repr :: "byteorder \<Rightarrow> ProtocolState \<Rightarrow> error + bytes" where
  "ProtocolState_repr bo self =
     (case struct_pack_I bo (issueDate self) of
        Inl e \<Rightarrow> Inl e
      | Inr d \<Rightarrow> Inr (d @ identifier' self @ masterKey self @ pad self))"

subsection \<open>decrypt\<close>

definition decrypt ::
  "platform \<Rightarrow> const \<Rightarrow> bytes \<Rightarrow> world \<Rightarrow> (error + ProtocolState option) \<times> world" where
  "decrypt pf c ticket w0 =
     (if length ticket \<noteq> TICKET_LENGTH then (Inl AssertionError, w0)
      else
        case checkKeys c (emit (LogDebug (AttemptingDecrypt (length ticket))) w0) of
          (Inl e, w1) \<Rightarrow> (Inl e, w1)
        | (Inr u, w1) \<Rightarrow>
            (case HMAC_digest pf (HMACKey w1) (slice 0 80 ticket) w1 of
               (Inl e, w2) \<Rightarrow> (Inl e, w2)
             | (Inr hmac, w2) \<Rightarrow>
                 if hmac \<noteq> slice 80 TICKET_LENGTH ticket
                 then (Inr None, emit (LogDebug HMACInvalid) w2)
                 else
                   (case AES_new (AESKey w2) (slice 0 16 ticket) w2 of
                      (Inl e, w3) \<Rightarrow> (Inl e, w3)
                    | (Inr k, w3) \<Rightarrow>
                        (case AES_decrypt pf k (slice 0 16 ticket) (slice 16 80 ticket) w3 of
                           (Inl e, w4) \<Rightarrow> (Inl e, w4)
                         | (Inr plainTicket, w4) \<Rightarrow>
                             (case struct_unpack_I (native_order pf) (slice 0 4 plainTicket) of
                                Inl e \<Rightarrow> (Inl e, w4)
                              | Inr d \<Rightarrow>
                                  if slice 4 22 plainTicket \<noteq> IDENTIFIER
                                  then (Inr None, emit (LogError IdentifierNotFound) w4)
                                  else (Inr (Some (ProtocolState_init
                                               (slice 22 54 plainTicket) d)), w4))))))"

subsection \<open>SessionTicket\<close>

record SessionTicket =
  IV :: bytes
  state :: ProtocolState
  symmTicketKey :: "bytes option"
  hmacTicketKey :: "bytes option"

definition SessionTicket_init ::
  "const \<Rightarrow> bytes \<Rightarrow> world \<Rightarrow> (error + SessionTicket) \<times> world" where
  "SessionTicket_init c mk w0 =
     (if length mk \<noteq> MASTER_KEY_LENGTH then (Inl AssertionError, w0)
      else
        case checkKeys c w0 of
          (Inl e, w1) \<Rightarrow> (Inl e, w1)
        | (Inr u, w1) \<Rightarrow>
            (let (iv, w2) = strong_random IV_LENGTH w1
             in (Inr \<lparr>IV = iv,
                      state = ProtocolState_init mk (defaultIssueDate w2),
                      symmTicketKey = AESKey w2,
                      hmacTicketKey = HMACKey w2\<rparr>, w2)))"

text \<open>
  \<open>issue\<close> assigns \<open>self.state.issueDate\<close> before anything can fail, so the object it leaves
  behind is part of the result in every case.
\<close>

definition stamp :: "int \<Rightarrow> SessionTicket \<Rightarrow> SessionTicket" where
  "stamp now self = self\<lparr>state := (state self)\<lparr>issueDate := now\<rparr>\<rparr>"

definition issue ::
  "platform \<Rightarrow> SessionTicket \<Rightarrow> world \<Rightarrow> (error + bytes) \<times> SessionTicket \<times> world" where
  "issue pf self0 w0 =
     (let (now, w1) = int_time w0;
          self = stamp now self0
      in case AES_new (symmTicketKey self) (IV self) w1 of
           (Inl e, w2) \<Rightarrow> (Inl e, self, w2)
         | (Inr k, w2) \<Rightarrow>
             (case ProtocolState_repr (native_order pf) (state self) of
                Inl e \<Rightarrow> (Inl e, self, w2)
              | Inr st \<Rightarrow>
                  if length st mod 16 \<noteq> 0 then (Inl AssertionError, self, w2)
                  else
                    (case AES_encrypt pf k (IV self) st w2 of
                       (Inl e, w3) \<Rightarrow> (Inl e, self, w3)
                     | (Inr cryptedState, w3) \<Rightarrow>
                         (case HMAC_digest pf (hmacTicketKey self) (IV self @ cryptedState) w3 of
                            (Inl e, w4) \<Rightarrow> (Inl e, self, w4)
                          | (Inr hmac, w4) \<Rightarrow>
                              (Inr (IV self @ cryptedState @ hmac), self,
                               emit (LogDebug (ReturningTicket
                                 (length (IV self) + length cryptedState + length hmac))) w4)))))"

subsection \<open>Reading the trace\<close>

text \<open>The library calls among the events of a world, in order: log lines are left out.\<close>

fun is_call :: "event \<Rightarrow> bool" where
  "is_call (LogInfo m) = False"
| "is_call (LogDebug m) = False"
| "is_call (LogError m) = False"
| "is_call e = True"

definition calls :: "world \<Rightarrow> event list" where
  "calls w = filter is_call (trace w)"

text \<open>
  Two devices for the proofs: \<open>strip\<close> forgets the trace, and \<open>retrace tr w w'\<close> replays
  on top of \<open>tr\<close> what \<open>w'\<close> appended to the trace of \<open>w\<close>.
\<close>

definition strip :: "world \<Rightarrow> world" where
  "strip w = w\<lparr>trace := []\<rparr>"

definition retrace :: "event list \<Rightarrow> world \<Rightarrow> world \<Rightarrow> world" where
  "retrace tr w w' = w'\<lparr>trace := tr @ drop (length (trace w)) (trace w')\<rparr>"

subsection \<open>A concrete platform and concrete worlds\<close>

text \<open>
  A toy cipher and a toy MAC that meet the library contract, for running the model on
  concrete inputs: the cipher adds the byte sum of key and IV to every byte, the MAC is
  32 copies of the byte sum of key and message.
\<close>

definition demo_platform :: platform where
  "demo_platform =
     \<lparr>aes_cbc_encrypt = (\<lambda>k iv d. map (\<lambda>b. b + (sum_list k + sum_list iv)) d),
      aes_cbc_decrypt = (\<lambda>k iv d. map (\<lambda>b. b - (sum_list k + sum_list iv)) d),
      hmac_sha256 = (\<lambda>k m. replicate 32 (sum_list k + sum_list m)),
      native_order = LittleEndian\<rparr>"

definition demo_const :: const where
  "demo_const = \<lparr>KEY_ROTATION_TIME = 604800, SESSION_TICKET_LIFETIME = 604800\<rparr>"

text \<open>
  A process whose keys were created at second 999999000 and whose clock reads \<open>now\<close> at
  every reading; the random source delivers the bytes 0, 1, 2, ...
\<close>

definition demo_world :: "int \<Rightarrow> world" where
  "demo_world now =
     \<lparr>HMACKey = Some (replicate 32 1), AESKey = Some (replicate 16 2),
      creationTime = Some 999999000,
      clock = (\<lambda>i. now), ticks = 0,
      entropy = (\<lambda>i. of_nat i), drawn = 0,
      key_store = Stored 999999000 (replicate 32 1) (replicate 16 2), store_writable = True,
      defaultIssueDate = 999999000, trace = []\<rparr>"

text \<open>A process that has just started: no keys in memory yet.\<close>

definition fresh_world :: "key_file \<Rightarrow> world" where
  "fresh_world f =
     \<lparr>HMACKey = None, AESKey = None, creationTime = None,
      clock = (\<lambda>i. 1000000000), ticks = 0,
      entropy = (\<lambda>i. of_nat i), drawn = 0,
      key_store = f, store_writable = True,
      defaultIssueDate = 1000000000, trace = []\<rparr>"

text \<open>
  The ticket object that \<open>SessionTicket(chr(17) * 32)\<close> builds in \<open>demo_world\<close>: the first 16
  random bytes as IV, the keys of the world.
\<close>

definition demo_ticket :: SessionTicket where
  "demo_ticket =
     \<lparr>IV = map of_nat [0..<16],
      state = ProtocolState_init (replicate 32 17) 999999000,
      symmTicketKey = Some (replicate 16 2),
      hmacTicketKey = Some (replicate 32 1)\<rparr>"

text \<open>
  112 bytes that are no ticket but carry the right toy MAC under the keys of \<open>demo_world\<close>.
\<close>

definition forged_ticket :: bytes where
  "forged_ticket = replicate 80 0 @ replicate 32 32"

text \<open>The object a second \<open>SessionTicket(chr(17) * 32)\<close> builds: the next 16 random bytes as IV.\<close>

definition demo_ticket2 :: SessionTicket where
  "demo_ticket2 =
     \<lparr>IV = map of_nat [16..<32],
      state = ProtocolState_init (replicate 32 17) 999999000,
      symmTicketKey = Some (replicate 16 2),
      hmacTicketKey = Some (replicate 32 1)\<rparr>"

text \<open>A protocol state for the master key 32 bytes of \<open>0x11\<close>, issued at second \<open>d\<close>.\<close>

definition demo_state :: "int \<Rightarrow> ProtocolState" where
  "demo_state d = ProtocolState_init (replicate 32 17) d"

text \<open>
  The same process with a clock that reads second 1000000000 twice and \<open>later\<close> from then
  on, and a run on it: build a ticket object, issue the ticket, redeem it.
\<close>

definition late_world :: "int \<Rightarrow> world" where
  "late_world later =
     (demo_world 1000000000)\<lparr>clock := (\<lambda>i. if i < 2 then 1000000000 else later)\<rparr>"

definition issue_then_redeem ::
  "platform \<Rightarrow> const \<Rightarrow> bytes \<Rightarrow> world \<Rightarrow> error + ProtocolState option" where
  "issue_then_redeem pf c k w0 =
     (case SessionTicket_init c k w0 of
        (Inl e, w1) \<Rightarrow> Inl e
      | (Inr self, w1) \<Rightarrow>
          (case issue pf self w1 of
             (Inl e, self', w2) \<Rightarrow> Inl e
           | (Inr ticket, self', w2) \<Rightarrow> fst (decrypt pf c ticket w2)))"

section \<open>Auxiliary lemmas\<close>

subsection \<open>Byte layout\<close>

lemma le_int_le_bytes: "0 \<le> n \<Longrightarrow> n < 256 ^ k \<Longrightarrow> le_int (le_bytes k n) = n"
proof (induction k arbitrary: n)
  case 0
  then show ?case by simp
next
  case (Suc k)
  have "0 \<le> n div 256"
    using Suc.prems by simp
  moreover have "n div 256 < 256 ^ k"
    using Suc.prems by (simp add: div_less_iff_less_mult mult.commute)
  ultimately have "le_int (le_bytes k (n div 256)) = n div 256"
    by (rule Suc.IH)
  then show ?case
    by (simp add: uint_word_of_int)
qed

lemma length_le_bytes [simp]: "length (le_bytes k n) = k"
  by (induction k arbitrary: n) simp_all

lemma struct_pack_I_ok:
  "0 \<le> n \<Longrightarrow> n < 4294967296 \<Longrightarrow>
   \<exists>d. struct_pack_I bo n = Inr d \<and> length d = 4 \<and> struct_unpack_I bo d = Inr n"
  using le_int_le_bytes [of n 4]
  by (cases bo) (simp_all add: struct_pack_I_def struct_unpack_I_def)

lemma struct_pack_I_length: "struct_pack_I bo n = Inr d \<Longrightarrow> length d = 4"
  by (auto simp: struct_pack_I_def split: if_splits byteorder.splits)

lemma length_IDENTIFIER [simp]: "length IDENTIFIER = 18"
  by (simp add: IDENTIFIER_def)

subsection \<open>The trace does not steer the key check\<close>

lemma emit_fields [simp]:
  "HMACKey (emit e w) = HMACKey w" "AESKey (emit e w) = AESKey w"
  "creationTime (emit e w) = creationTime w" "clock (emit e w) = clock w"
  "ticks (emit e w) = ticks w" "entropy (emit e w) = entropy w" "drawn (emit e w) = drawn w"
  "key_store (emit e w) = key_store w" "store_writable (emit e w) = store_writable w"
  "defaultIssueDate (emit e w) = defaultIssueDate w" "trace (emit e w) = trace w @ [e]"
  by (simp_all add: emit_def)

lemma rotateKeys_retrace: "rotateKeys (w\<lparr>trace := tr\<rparr>) = retrace tr w (rotateKeys w)"
  by (simp add: rotateKeys_def strong_random_def int_time_def Let_def emit_def retrace_def)

lemma loadKeys_retrace:
  "loadKeys (w\<lparr>trace := tr\<rparr>) = (fst (loadKeys w), retrace tr w (snd (loadKeys w)))"
proof (cases "key_store w")
  case Absent
  have "rotateKeys (w\<lparr>trace := tr @ [LogInfo ReadingKeys]\<rparr>)
      = retrace (tr @ [LogInfo ReadingKeys]) w (rotateKeys w)"
    by (rule rotateKeys_retrace)
  moreover have "rotateKeys (w\<lparr>trace := trace w @ [LogInfo ReadingKeys]\<rparr>)
      = retrace (trace w @ [LogInfo ReadingKeys]) w (rotateKeys w)"
    by (rule rotateKeys_retrace)
  ultimately show ?thesis
    using Absent by (simp add: loadKeys_def emit_def retrace_def)
qed (simp_all add: loadKeys_def emit_def retrace_def)

lemma strip_fields [simp]:
  "HMACKey (strip w) = HMACKey w" "AESKey (strip w) = AESKey w"
  "creationTime (strip w) = creationTime w" "clock (strip w) = clock w"
  "ticks (strip w) = ticks w" "key_store (strip w) = key_store w"
  by (simp_all add: strip_def)

lemma strip_strip [simp]: "strip (strip w) = strip w"
  by (simp add: strip_def)

lemma strip_eqD:
  assumes "strip w = strip w'"
  shows "HMACKey w = HMACKey w'" "AESKey w = AESKey w'" "creationTime w = creationTime w'"
    "clock w = clock w'" "ticks w = ticks w'"
  using assms [THEN arg_cong, of HMACKey] assms [THEN arg_cong, of AESKey]
    assms [THEN arg_cong, of creationTime] assms [THEN arg_cong, of clock]
    assms [THEN arg_cong, of ticks]
  by simp_all

lemma strip_emit [simp]: "strip (emit e w) = strip w"
  by (simp add: strip_def emit_def)

lemma strip_rotateKeys: "strip (rotateKeys w) = strip (rotateKeys (strip w))"
  by (simp add: strip_def rotateKeys_retrace retrace_def)

lemma strip_loadKeys:
  "fst (loadKeys w) = fst (loadKeys (strip w))"
  "strip (snd (loadKeys w)) = strip (snd (loadKeys (strip w)))"
  by (simp_all add: strip_def loadKeys_retrace retrace_def)

lemma strip_tick: "strip (w\<lparr>ticks := n\<rparr>) = (strip w)\<lparr>ticks := n\<rparr>"
  by (simp add: strip_def)

lemma strip_checkKeys:
  "fst (checkKeys c w) = fst (checkKeys c (strip w)) \<and>
   strip (snd (checkKeys c w)) = strip (snd (checkKeys c (strip w)))"
proof -
  define P where
    "P v = (if HMACKey v = None \<or> AESKey v = None then loadKeys v else (Inr (), v))" for v
  define Q where
    "Q v = (case creationTime v of
              None \<Rightarrow> (Inl TypeError, v\<lparr>ticks := Suc (ticks v)\<rparr>)
            | Some ct \<Rightarrow>
                if clock v (ticks v) - ct > KEY_ROTATION_TIME c
                then (Inr (), rotateKeys (v\<lparr>ticks := Suc (ticks v)\<rparr>))
                else (Inr (), v\<lparr>ticks := Suc (ticks v)\<rparr>))" for v
  have ck: "checkKeys c v = (case P v of (Inl e, w1) \<Rightarrow> (Inl e, w1) | (Inr u, w1) \<Rightarrow> Q w1)"
    for v
    by (simp add: checkKeys_def P_def Q_def int_time_def split: prod.splits sum.splits)
  have P1: "fst (P w) = fst (P (strip w))"
    and P2: "strip (snd (P w)) = strip (snd (P (strip w)))"
    using strip_loadKeys [of w] by (simp_all add: P_def)
  have Q1: "fst (Q v) = fst (Q v') \<and> strip (snd (Q v)) = strip (snd (Q v'))"
    if "strip v = strip v'" for v v'
  proof -
    have t: "strip (v\<lparr>ticks := Suc (ticks v)\<rparr>) = strip (v'\<lparr>ticks := Suc (ticks v')\<rparr>)"
      using that strip_eqD(5) [OF that] by (simp add: strip_tick)
    have r: "strip (rotateKeys (v\<lparr>ticks := Suc (ticks v)\<rparr>))
           = strip (rotateKeys (v'\<lparr>ticks := Suc (ticks v')\<rparr>))"
      using t strip_rotateKeys by metis
    show ?thesis
      using strip_eqD [OF that] t r by (simp add: Q_def split: option.splits)
  qed
  obtain x w1 where a: "P w = (x, w1)"
    by (cases "P w")
  obtain x' w1' where b: "P (strip w) = (x', w1')"
    by (cases "P (strip w)")
  from P1 P2 a b have xx: "x' = x" and ww: "strip w1 = strip w1'"
    by simp_all
  show ?thesis
  proof (cases x)
    case (Inl e)
    then show ?thesis
      using a b xx ww by (simp add: ck)
  next
    case (Inr u)
    then show ?thesis
      using a b xx Q1 [OF ww] by (simp add: ck)
  qed
qed

lemma checkKeys_emit:
  "fst (checkKeys c (emit e w)) = fst (checkKeys c w)"
  "HMACKey (snd (checkKeys c (emit e w))) = HMACKey (snd (checkKeys c w))"
  "AESKey (snd (checkKeys c (emit e w))) = AESKey (snd (checkKeys c w))"
proof -
  have s: "strip (snd (checkKeys c (emit e w))) = strip (snd (checkKeys c w))"
    using strip_checkKeys [of c "emit e w"] strip_checkKeys [of c w] by simp
  show "fst (checkKeys c (emit e w)) = fst (checkKeys c w)"
    using strip_checkKeys [of c "emit e w"] strip_checkKeys [of c w] by simp
  show "HMACKey (snd (checkKeys c (emit e w))) = HMACKey (snd (checkKeys c w))"
    using strip_eqD(1) [OF s] .
  show "AESKey (snd (checkKeys c (emit e w))) = AESKey (snd (checkKeys c w))"
    using strip_eqD(2) [OF s] .
qed

subsection \<open>The key check makes no library call\<close>

lemma calls_emit [simp]: "calls (emit e w) = (if is_call e then calls w @ [e] else calls w)"
  by (simp add: calls_def)

lemma calls_rotateKeys [simp]: "calls (rotateKeys w) = calls w"
  by (simp add: rotateKeys_def strong_random_def int_time_def Let_def calls_def)

lemma calls_loadKeys [simp]: "calls (snd (loadKeys w)) = calls w"
  by (cases "key_store w") (simp_all add: loadKeys_def Let_def, simp_all add: calls_def)

lemma calls_checkKeys [simp]: "calls (snd (checkKeys c w)) = calls w"
proof -
  define r where "r = (if HMACKey w = None \<or> AESKey w = None then loadKeys w else (Inr (), w))"
  have c: "calls (snd r) = calls w"
    by (simp add: r_def)
  obtain x w1 where r: "r = (x, w1)"
    by (cases r)
  with c have c1: "calls w1 = calls w"
    by simp
  show ?thesis
  proof (cases x)
    case (Inl e)
    then show ?thesis
      using r c1 by (simp add: checkKeys_def r_def [symmetric])
  next
    case (Inr u)
    then show ?thesis
      using r c1
      by (simp add: checkKeys_def r_def [symmetric] int_time_def split: option.splits)
         (simp add: calls_def)
  qed
qed

lemma decrypt_key_check:
  assumes "fst (checkKeys c w) = Inr ()"
  shows "\<exists>w1. checkKeys c (emit e w) = (Inr (), w1) \<and>
              HMACKey w1 = HMACKey (snd (checkKeys c w)) \<and>
              AESKey w1 = AESKey (snd (checkKeys c w)) \<and>
              calls w1 = (if is_call e then calls w @ [e] else calls w)"
proof -
  obtain x w1 where r: "checkKeys c (emit e w) = (x, w1)"
    by (cases "checkKeys c (emit e w)")
  have "x = Inr ()"
    using checkKeys_emit(1) [of c e w] r assms by simp
  moreover have "HMACKey w1 = HMACKey (snd (checkKeys c w))"
    using checkKeys_emit(2) [of c e w] r by simp
  moreover have "AESKey w1 = AESKey (snd (checkKeys c w))"
    using checkKeys_emit(3) [of c e w] r by simp
  moreover have "calls w1 = (if is_call e then calls w @ [e] else calls w)"
    using calls_checkKeys [of c "emit e w"] r by simp
  ultimately show ?thesis
    using r by simp
qed

subsection \<open>The key check within one epoch\<close>

lemma checkKeys_same_epoch:
  assumes "HMACKey w = Some hk" "AESKey w = Some ak" "creationTime w = Some ct"
    and "clock w (ticks w) - ct \<le> KEY_ROTATION_TIME c"
  shows "checkKeys c w = (Inr (), w\<lparr>ticks := Suc (ticks w)\<rparr>)"
  using assms by (simp add: checkKeys_def int_time_def)

lemma demo_platform_ok: "platform_ok demo_platform"
  by (simp add: platform_ok_def demo_platform_def aes_args_ok_def comp_def)

lemma checkKeys_demo_world:
  "now \<le> 1000603800 \<Longrightarrow>
   checkKeys demo_const (demo_world now) = (Inr (), (demo_world now)\<lparr>ticks := 1\<rparr>)"
  using checkKeys_same_epoch [of "demo_world now" "replicate 32 1" "replicate 16 2" 999999000 demo_const]
  by (simp add: demo_world_def demo_const_def)

lemma SessionTicket_init_same_epoch:
  assumes "length k = MASTER_KEY_LENGTH"
    and "HMACKey w = Some hk" "AESKey w = Some ak" "creationTime w = Some ct"
    and "clock w (ticks w) - ct \<le> KEY_ROTATION_TIME c"
  shows "SessionTicket_init c k w =
           (Inr \<lparr>IV = map (entropy w) [drawn w ..< drawn w + 16],
                 state = ProtocolState_init k (defaultIssueDate w),
                 symmTicketKey = Some ak, hmacTicketKey = Some hk\<rparr>,
            w\<lparr>ticks := Suc (ticks w), drawn := drawn w + 16\<rparr>)"
  using assms checkKeys_same_epoch [OF assms(2-5)]
  by (simp add: SessionTicket_init_def strong_random_def IV_LENGTH_def)

lemma SessionTicket_init_demo_world:
  "now \<le> 1000603800 \<Longrightarrow>
   SessionTicket_init demo_const (replicate 32 17) (demo_world now) =
     (Inr demo_ticket, (demo_world now)\<lparr>ticks := 1, drawn := 16\<rparr>)"
  using SessionTicket_init_same_epoch [of "replicate 32 17" "demo_world now"
      "replicate 32 1" "replicate 16 2" 999999000 demo_const]
  by (simp add: demo_world_def demo_const_def MASTER_KEY_LENGTH_def demo_ticket_def)

subsection \<open>Issuing and redeeming, step by step\<close>

lemma SessionTicket_init_D:
  assumes "SessionTicket_init c k w0 = (Inr self, w1)"
  shows "length k = MASTER_KEY_LENGTH" "length (IV self) = 16"
    "state self = ProtocolState_init k (defaultIssueDate w1)"
    "symmTicketKey self = AESKey w1" "hmacTicketKey self = HMACKey w1"
  using assms
  by (auto simp: SessionTicket_init_def strong_random_def IV_LENGTH_def
      split: if_splits prod.splits sum.splits)

lemma issue_ok:
  assumes "symmTicketKey self = Some ak" "length ak \<in> {16, 24, 32}"
    and "hmacTicketKey self = Some hk"
    and "length (IV self) = 16"
    and "state self = ProtocolState_init k d0" "length k = 32"
    and "struct_pack_I (native_order pf) (clock w (ticks w)) = Inr d" "length d = 4"
  shows "fst (issue pf self w) =
           Inr (IV self
                @ aes_cbc_encrypt pf ak (IV self) (d @ IDENTIFIER @ k @ replicate 10 0)
                @ hmac_sha256 pf hk
                    (IV self @ aes_cbc_encrypt pf ak (IV self) (d @ IDENTIFIER @ k @ replicate 10 0)))"
  using assms
  by (simp add: issue_def int_time_def stamp_def AES_new_def ProtocolState_repr_def
      ProtocolState_init_def AES_encrypt_def HMAC_digest_def)

lemma decrypt_ok:
  assumes pf: "platform_ok pf"
    and ck: "fst (checkKeys c w) = Inr ()"
    and hk: "HMACKey (snd (checkKeys c w)) = Some hk"
    and ak: "AESKey (snd (checkKeys c w)) = Some ak" "length ak \<in> {16, 24, 32}"
    and len: "length iv = 16" "length d = 4" "length k = 32"
    and un: "struct_unpack_I (native_order pf) d = Inr t"
  shows "fst (decrypt pf c
           (iv @ aes_cbc_encrypt pf ak iv (d @ IDENTIFIER @ k @ replicate 10 0)
               @ hmac_sha256 pf hk
                   (iv @ aes_cbc_encrypt pf ak iv (d @ IDENTIFIER @ k @ replicate 10 0))) w)
         = Inr (Some (ProtocolState_init k t))"
proof -
  let ?p = "d @ IDENTIFIER @ k @ replicate 10 0"
  let ?ct = "aes_cbc_encrypt pf ak iv ?p"
  let ?tag = "hmac_sha256 pf hk (iv @ ?ct)"
  let ?tk = "iv @ ?ct @ ?tag"
  have ok: "aes_args_ok ak iv ?p"
    using ak len by (simp add: aes_args_ok_def)
  have lct: "length ?ct = 64" and inv: "aes_cbc_decrypt pf ak iv ?ct = ?p"
    using pf ok len by (simp_all add: platform_ok_def)
  have ltag: "length ?tag = 32"
    using pf by (simp add: platform_ok_def)
  have ltk: "length ?tk = TICKET_LENGTH"
    using len lct ltag by (simp add: TICKET_LENGTH_def)
  have s1: "slice 0 80 ?tk = iv @ ?ct"
    using len lct by (simp add: slice_def)
  have s2: "slice 80 TICKET_LENGTH ?tk = ?tag"
    using len lct ltag by (simp add: slice_def TICKET_LENGTH_def)
  have s3: "slice 0 16 ?tk = iv"
    using len by (simp add: slice_def)
  have s4: "slice 16 80 ?tk = ?ct"
    using len lct by (simp add: slice_def)
  have p1: "slice 0 4 ?p = d" and p2: "slice 4 22 ?p = IDENTIFIER" and p3: "slice 22 54 ?p = k"
    using len by (simp_all add: slice_def)
  obtain w1 where w1:
    "checkKeys c (emit (LogDebug (AttemptingDecrypt (length ?tk))) w) = (Inr (), w1)"
    "HMACKey w1 = Some hk" "AESKey w1 = Some ak"
    using decrypt_key_check [OF ck] hk ak by metis
  show ?thesis
    unfolding decrypt_def
    using ltk w1 ak(2) lct len(1)
    by (simp add: s1 s2 s3 s4 HMAC_digest_def AES_new_def AES_decrypt_def inv p1 p2 p3 un)
qed

lemma checkKeys_demo_world_keys:
  "now \<le> 1000603800 \<Longrightarrow> fst (checkKeys demo_const (demo_world now)) = Inr ()"
  "now \<le> 1000603800 \<Longrightarrow>
     HMACKey (snd (checkKeys demo_const (demo_world now))) = Some (replicate 32 1)"
  "now \<le> 1000603800 \<Longrightarrow>
     AESKey (snd (checkKeys demo_const (demo_world now))) = Some (replicate 16 2)"
  by (simp_all add: checkKeys_demo_world) (simp_all add: demo_world_def)

lemma slice_replicate: "slice a b (replicate n x) = replicate (min b n - a) x"
  by (simp add: slice_def min.commute)

lemma demo_zero_buffer_mac:
  "hmac_sha256 demo_platform (replicate 32 1) (slice 0 80 (replicate 112 0))
     \<noteq> slice 80 112 (replicate 112 0)"
  by (simp add: demo_platform_def slice_replicate sum_list_replicate)

subsection \<open>The two rejections of decrypt\<close>

lemma decrypt_hmac_mismatch:
  assumes len: "length ticket = TICKET_LENGTH"
    and ck: "fst (checkKeys c w) = Inr ()"
    and hk: "HMACKey (snd (checkKeys c w)) = Some hk"
    and bad: "hmac_sha256 pf hk (slice 0 80 ticket) \<noteq> slice 80 112 ticket"
  shows "fst (decrypt pf c ticket w) = Inr None"
    and "calls (snd (decrypt pf c ticket w)) = calls w @ [Call_HMAC_digest]"
proof -
  obtain w1 where w1:
    "checkKeys c (emit (LogDebug (AttemptingDecrypt (length ticket))) w) = (Inr (), w1)"
    "HMACKey w1 = Some hk" "calls w1 = calls w"
    using decrypt_key_check [OF ck, of "LogDebug (AttemptingDecrypt (length ticket))"] hk
    by auto
  show "fst (decrypt pf c ticket w) = Inr None"
    unfolding decrypt_def using len w1 bad
    by (simp add: HMAC_digest_def TICKET_LENGTH_def)
  show "calls (snd (decrypt pf c ticket w)) = calls w @ [Call_HMAC_digest]"
    unfolding decrypt_def using len w1 bad
    by (simp add: HMAC_digest_def TICKET_LENGTH_def)
qed

lemma decrypt_format_mismatch:
  assumes pf: "platform_ok pf"
    and len: "length ticket = TICKET_LENGTH"
    and ck: "fst (checkKeys c w) = Inr ()"
    and hk: "HMACKey (snd (checkKeys c w)) = Some hk"
    and ak: "AESKey (snd (checkKeys c w)) = Some ak" "length ak \<in> {16, 24, 32}"
    and good: "hmac_sha256 pf hk (slice 0 80 ticket) = slice 80 112 ticket"
    and fmt: "slice 4 22 (aes_cbc_decrypt pf ak (slice 0 16 ticket) (slice 16 80 ticket))
                \<noteq> IDENTIFIER"
  shows "fst (decrypt pf c ticket w) = Inr None"
    and "calls (snd (decrypt pf c ticket w))
           = calls w @ [Call_HMAC_digest, Call_AES_new, Call_AES_decrypt]"
    and "last (trace (snd (decrypt pf c ticket w))) = LogError IdentifierNotFound"
proof -
  let ?plain = "aes_cbc_decrypt pf ak (slice 0 16 ticket) (slice 16 80 ticket)"
  obtain w1 where w1:
    "checkKeys c (emit (LogDebug (AttemptingDecrypt (length ticket))) w) = (Inr (), w1)"
    "HMACKey w1 = Some hk" "AESKey w1 = Some ak" "calls w1 = calls w"
    using decrypt_key_check [OF ck, of "LogDebug (AttemptingDecrypt (length ticket))"] hk ak
    by auto
  have l1: "length (slice 0 16 ticket) = 16" and l2: "length (slice 16 80 ticket) = 64"
    using len by (simp_all add: slice_def TICKET_LENGTH_def)
  have "aes_args_ok ak (slice 0 16 ticket) (slice 16 80 ticket)"
    using ak l1 l2 by (simp add: aes_args_ok_def)
  then have "length ?plain = 64"
    using pf l2 by (simp add: platform_ok_def)
  then have "length (slice 0 4 ?plain) = 4"
    by (simp add: slice_def)
  then obtain d where d: "struct_unpack_I (native_order pf) (slice 0 4 ?plain) = Inr d"
    by (simp add: struct_unpack_I_def)
  show "fst (decrypt pf c ticket w) = Inr None"
    unfolding decrypt_def using len w1 good fmt ak(2) l1 l2 d
    by (simp add: HMAC_digest_def AES_new_def AES_decrypt_def TICKET_LENGTH_def)
  show "calls (snd (decrypt pf c ticket w))
           = calls w @ [Call_HMAC_digest, Call_AES_new, Call_AES_decrypt]"
    unfolding decrypt_def using len w1 good fmt ak(2) l1 l2 d
    by (simp add: HMAC_digest_def AES_new_def AES_decrypt_def TICKET_LENGTH_def)
  show "last (trace (snd (decrypt pf c ticket w))) = LogError IdentifierNotFound"
    unfolding decrypt_def using len w1 good fmt ak(2) l1 l2 d
    by (simp add: HMAC_digest_def AES_new_def AES_decrypt_def TICKET_LENGTH_def)
qed

subsection \<open>What issue computes\<close>

lemma issue_stamp: "issue pf (stamp n self) w = issue pf self w"
  by (simp add: issue_def stamp_def)

lemma issue_object: "fst (snd (issue pf self w)) = stamp (clock w (ticks w)) self"
  by (simp add: issue_def int_time_def AES_new_def AES_encrypt_def HMAC_digest_def Let_def
      split: option.splits sum.splits)

lemma issue_fst_cong:
  "clock w (ticks w) = clock w' (ticks w') \<Longrightarrow> fst (issue pf self w) = fst (issue pf self w')"
  by (simp add: issue_def int_time_def AES_new_def AES_encrypt_def HMAC_digest_def Let_def
      split: option.splits sum.splits)

lemma issue_Inr_D:
  assumes "fst (issue pf self w) = Inr t"
  shows "\<exists>ak hk d. symmTicketKey self = Some ak \<and> length ak \<in> {16, 24, 32} \<and>
           hmacTicketKey self = Some hk \<and> length (IV self) = 16 \<and>
           struct_pack_I (native_order pf) (clock w (ticks w)) = Inr d \<and>
           t = IV self
               @ aes_cbc_encrypt pf ak (IV self)
                   (d @ identifier' (state self) @ masterKey (state self) @ pad (state self))
               @ hmac_sha256 pf hk
                   (IV self @ aes_cbc_encrypt pf ak (IV self)
                      (d @ identifier' (state self) @ masterKey (state self) @ pad (state self)))"
  using assms
  by (auto simp add: issue_def int_time_def stamp_def AES_new_def AES_encrypt_def HMAC_digest_def
      ProtocolState_repr_def Let_def split: option.splits sum.splits if_splits)

lemma issue_prefix:
  assumes "fst (issue pf self w) = Inr t"
  shows "take 16 t = IV self"
  using issue_Inr_D [OF assms] by auto

lemma rotateKeys_fields:
  "HMACKey (rotateKeys w) = Some (map (entropy w) [drawn w ..< drawn w + 32])"
  "AESKey (rotateKeys w) = Some (map (entropy w) [drawn w + 32 ..< drawn w + 48])"
  "creationTime (rotateKeys w) = Some (clock w (ticks w))"
  "clock (rotateKeys w) = clock w" "ticks (rotateKeys w) = Suc (ticks w)"
  "entropy (rotateKeys w) = entropy w" "drawn (rotateKeys w) = drawn w + 48"
  by (simp_all add: rotateKeys_def strong_random_def int_time_def Let_def
      HMAC_KEY_LENGTH_def AES_KEY_LENGTH_def emit_def add.commute)

lemma SessionTicket_init_demo_world2:
  "now \<le> 1000603800 \<Longrightarrow>
   SessionTicket_init demo_const (replicate 32 17) ((demo_world now)\<lparr>ticks := 1, drawn := 16\<rparr>) =
     (Inr demo_ticket2, (demo_world now)\<lparr>ticks := 2, drawn := 32\<rparr>)"
  using SessionTicket_init_same_epoch [of "replicate 32 17"
      "(demo_world now)\<lparr>ticks := 1, drawn := 16\<rparr>"
      "replicate 32 1" "replicate 16 2" 999999000 demo_const]
  by (simp add: demo_world_def demo_const_def MASTER_KEY_LENGTH_def demo_ticket2_def)

lemma issue_demo:
  assumes "self = demo_ticket \<or> self = demo_ticket2" and "clock w (ticks w) = 1000000000"
  shows "\<exists>t. fst (issue demo_platform self w) = Inr t"
proof -
  obtain d where d: "struct_pack_I (native_order demo_platform) (clock w (ticks w)) = Inr d"
      "length d = 4"
    using struct_pack_I_ok [of 1000000000] assms(2) by auto
  have "symmTicketKey self = Some (replicate 16 2)" "hmacTicketKey self = Some (replicate 32 1)"
    "length (IV self) = 16" "state self = ProtocolState_init (replicate 32 17) 999999000"
    using assms(1) by (auto simp: demo_ticket_def demo_ticket2_def)
  then show ?thesis
    using issue_ok [of self "replicate 16 2" "replicate 32 1" "replicate 32 17" 999999000
        demo_platform w d] d
    by simp
qed

subsection \<open>isValid\<close>

lemma isValid_result:
  assumes "issueDate self \<noteq> 0"
    and "timedelta_ok \<bar>clock w (ticks w) - issueDate self - SESSION_TICKET_LIFETIME c\<bar>"
  shows "isValid c self w =
           (Inr (clock w (ticks w) - issueDate self \<le> SESSION_TICKET_LIFETIME c),
            emit (LogDebug
                   (if clock w (ticks w) - issueDate self \<le> SESSION_TICKET_LIFETIME c
                    then TicketStillValid
                           (SESSION_TICKET_LIFETIME c - (clock w (ticks w) - issueDate self))
                    else TicketExpired
                           (clock w (ticks w) - issueDate self - SESSION_TICKET_LIFETIME c)))
              (w\<lparr>ticks := Suc (ticks w)\<rparr>))"
proof (cases "clock w (ticks w) - issueDate self \<le> SESSION_TICKET_LIFETIME c")
  case True
  then have "\<bar>clock w (ticks w) - issueDate self - SESSION_TICKET_LIFETIME c\<bar>
      = SESSION_TICKET_LIFETIME c - (clock w (ticks w) - issueDate self)"
    by simp
  then show ?thesis
    using assms True by (simp add: isValid_def int_time_def)
next
  case False
  then have "\<bar>clock w (ticks w) - issueDate self - SESSION_TICKET_LIFETIME c\<bar>
      = clock w (ticks w) - issueDate self - SESSION_TICKET_LIFETIME c"
    by simp
  then show ?thesis
    using assms False by (simp add: isValid_def int_time_def)
qed

subsection \<open>Rotation and the key store\<close>

lemma checkKeys_expired:
  assumes "HMACKey w = Some hk" "AESKey w = Some ak" "creationTime w = Some ct"
    and "clock w (ticks w) - ct > KEY_ROTATION_TIME c"
  shows "checkKeys c w = (Inr (), rotateKeys (w\<lparr>ticks := Suc (ticks w)\<rparr>))"
  using assms by (simp add: checkKeys_def int_time_def)

lemma rotateKeys_forgets:
  "rotateKeys (w\<lparr>HMACKey := h, AESKey := a, creationTime := t\<rparr>) = rotateKeys w"
  by (simp add: rotateKeys_def strong_random_def int_time_def Let_def emit_def)

lemma rotateKeys_usable:
  "HMACKey (rotateKeys w) \<noteq> None \<and> AESKey (rotateKeys w) \<noteq> None \<and>
   creationTime (rotateKeys w) \<noteq> None"
  by (simp add: rotateKeys_fields)

lemma checkKeys_unreadable:
  assumes "HMACKey w = None \<or> AESKey w = None" "key_store w = Unreadable"
    "creationTime w = None"
  shows "fst (checkKeys c w) = Inl TypeError"
  using assms by (auto simp add: checkKeys_def loadKeys_def int_time_def)

lemma decrypt_key_check_fails:
  assumes "length ticket = TICKET_LENGTH" "fst (checkKeys c w) = Inl e"
  shows "fst (decrypt pf c ticket w) = Inl e"
proof -
  obtain x w1 where r:
    "checkKeys c (emit (LogDebug (AttemptingDecrypt (length ticket))) w) = (x, w1)"
    by (cases "checkKeys c (emit (LogDebug (AttemptingDecrypt (length ticket))) w)")
  then have "x = Inl e"
    using checkKeys_emit(1) [of c "LogDebug (AttemptingDecrypt (length ticket))" w] assms(2)
    by simp
  then show ?thesis
    using r assms(1) by (simp add: decrypt_def)
qed

lemma SessionTicket_init_key_check_fails:
  assumes "length k = MASTER_KEY_LENGTH" "fst (checkKeys c w) = Inl e"
  shows "fst (SessionTicket_init c k w) = Inl e"
  using assms by (cases "checkKeys c w") (simp add: SessionTicket_init_def)

lemma unwritable_store_recovers:
  assumes "HMACKey w = None \<or> AESKey w = None" "key_store w = Absent" "\<not> store_writable w"
    and "clock w (Suc (ticks w)) - clock w (ticks w) \<le> KEY_ROTATION_TIME c"
  shows "fst (checkKeys c w) = Inr ()"
    and "HMACKey (snd (checkKeys c w)) = Some (map (entropy w) [drawn w ..< drawn w + 32])"
    and "AESKey (snd (checkKeys c w)) = Some (map (entropy w) [drawn w + 32 ..< drawn w + 48])"
    and "creationTime (snd (checkKeys c w)) = Some (clock w (ticks w))"
    and "key_store (snd (checkKeys c w)) = Absent"
    and "LogError ErrorOpeningKeyFile \<in> set (trace (snd (checkKeys c w)))"
proof -
  let ?w1 = "rotateKeys (emit (LogInfo ReadingKeys) w)"
  have l: "loadKeys w = (Inr (), ?w1)"
    using assms(2) by (simp add: loadKeys_def)
  have f: "HMACKey ?w1 = Some (map (entropy w) [drawn w ..< drawn w + 32])"
    "AESKey ?w1 = Some (map (entropy w) [drawn w + 32 ..< drawn w + 48])"
    "creationTime ?w1 = Some (clock w (ticks w))" "clock ?w1 = clock w"
    "ticks ?w1 = Suc (ticks w)"
    by (simp_all add: rotateKeys_fields)
  have ck: "checkKeys c w = (Inr (), ?w1\<lparr>ticks := Suc (ticks ?w1)\<rparr>)"
    using assms(1,4) l f by (auto simp add: checkKeys_def int_time_def)
  have k: "key_store ?w1 = Absent" "LogError ErrorOpeningKeyFile \<in> set (trace ?w1)"
    using assms(2,3)
    by (simp_all add: rotateKeys_def strong_random_def int_time_def Let_def emit_def)
  show "fst (checkKeys c w) = Inr ()"
    and "HMACKey (snd (checkKeys c w)) = Some (map (entropy w) [drawn w ..< drawn w + 32])"
    and "AESKey (snd (checkKeys c w)) = Some (map (entropy w) [drawn w + 32 ..< drawn w + 48])"
    and "creationTime (snd (checkKeys c w)) = Some (clock w (ticks w))"
    and "key_store (snd (checkKeys c w)) = Absent"
    and "LogError ErrorOpeningKeyFile \<in> set (trace (snd (checkKeys c w)))"
    using ck f k by simp_all
qed

lemma issue_world_fields:
  "HMACKey (snd (snd (issue pf self w))) = HMACKey w"
  "AESKey (snd (snd (issue pf self w))) = AESKey w"
  "creationTime (snd (snd (issue pf self w))) = creationTime w"
  "clock (snd (snd (issue pf self w))) = clock w"
  "ticks (snd (snd (issue pf self w))) = Suc (ticks w)"
  "entropy (snd (snd (issue pf self w))) = entropy w"
  "drawn (snd (snd (issue pf self w))) = drawn w"
  by (simp_all add: issue_def int_time_def AES_new_def AES_encrypt_def HMAC_digest_def Let_def
      split: option.splits sum.splits)

lemma demo_sum2: "sum_list (map of_nat [16..<48]) = (240 :: byte)"
  by code_simp

lemma late_world_run:
  obtains d w2 where
    "struct_pack_I LittleEndian 1000000000 = Inr d" "length d = 4"
    "struct_unpack_I LittleEndian d = Inr 1000000000"
    "issue_then_redeem demo_platform demo_const (replicate 32 17) (late_world n) =
       fst (decrypt demo_platform demo_const
              (map of_nat [0..<16]
               @ aes_cbc_encrypt demo_platform (replicate 16 2) (map of_nat [0..<16])
                   (d @ IDENTIFIER @ replicate 32 17 @ replicate 10 0)
               @ hmac_sha256 demo_platform (replicate 32 1)
                   (map of_nat [0..<16]
                    @ aes_cbc_encrypt demo_platform (replicate 16 2) (map of_nat [0..<16])
                        (d @ IDENTIFIER @ replicate 32 17 @ replicate 10 0))) w2)"
    "HMACKey w2 = Some (replicate 32 1)" "AESKey w2 = Some (replicate 16 2)"
    "creationTime w2 = Some 999999000" "clock w2 (ticks w2) = n"
    "entropy w2 = of_nat" "drawn w2 = 16"
proof -
  let ?W0 = "late_world n"
  let ?W1 = "?W0\<lparr>ticks := 1, drawn := 16\<rparr>"
  obtain d where d: "struct_pack_I LittleEndian 1000000000 = Inr d" "length d = 4"
    "struct_unpack_I LittleEndian d = Inr 1000000000"
    using struct_pack_I_ok [of 1000000000] by auto
  let ?iv = "map of_nat [0..<16] :: bytes"
  let ?ct = "aes_cbc_encrypt demo_platform (replicate 16 2) ?iv
               (d @ IDENTIFIER @ replicate 32 17 @ replicate 10 0)"
  let ?t = "?iv @ ?ct @ hmac_sha256 demo_platform (replicate 32 1) (?iv @ ?ct)"
  have n1: "SessionTicket_init demo_const (replicate 32 17) ?W0 = (Inr demo_ticket, ?W1)"
    using SessionTicket_init_same_epoch [of "replicate 32 17" ?W0
        "replicate 32 1" "replicate 16 2" 999999000 demo_const]
    by (simp add: late_world_def demo_world_def demo_const_def MASTER_KEY_LENGTH_def
        demo_ticket_def)
  have "native_order demo_platform = LittleEndian" "clock ?W1 (ticks ?W1) = 1000000000"
    by (simp_all add: demo_platform_def late_world_def demo_world_def)
  then have i: "fst (issue demo_platform demo_ticket ?W1) = Inr ?t"
    using issue_ok [of demo_ticket "replicate 16 2" "replicate 32 1" "replicate 32 17" 999999000
        demo_platform ?W1 d] d
    by (simp add: demo_ticket_def)
  define w2 where "w2 = snd (snd (issue demo_platform demo_ticket ?W1))"
  obtain self' where i2: "issue demo_platform demo_ticket ?W1 = (Inr ?t, self', w2)"
    using i by (cases "issue demo_platform demo_ticket ?W1") (auto simp: w2_def)
  have r: "issue_then_redeem demo_platform demo_const (replicate 32 17) ?W0 =
       fst (decrypt demo_platform demo_const ?t w2)"
    using n1 i2 by (simp add: issue_then_redeem_def)
  have f: "HMACKey w2 = Some (replicate 32 1)" "AESKey w2 = Some (replicate 16 2)"
    "creationTime w2 = Some 999999000" "clock w2 (ticks w2) = n"
    "entropy w2 = of_nat" "drawn w2 = 16"
    unfolding w2_def issue_world_fields
    by (simp_all add: late_world_def demo_world_def)
  show ?thesis
    using that [OF d r f] .
qed

section \<open>The claims\<close>

text \<open>
  C1 (round trip). Let \<open>k\<close> be a 32-byte master key and let a ticket object for \<open>k\<close> be
  built while the epoch \<open>(hk, ak)\<close> is active. If \<open>issue\<close> reads a clock value \<open>t\<close> that fits
  an unsigned 32-bit integer, it returns a 112-byte ticket, and \<open>decrypt\<close>, called in any
  world whose key check leaves the same epoch \<open>(hk, ak)\<close> in force, accepts that ticket and
  returns the record with \<open>masterKey = k\<close> and \<open>issueDate = t\<close>.
\<close>

theorem ticket_round_trip:
  assumes pf: "platform_ok pf"
    and new: "SessionTicket_init c k w0 = (Inr self, w1)"
    and hk: "HMACKey w1 = Some hk"
    and ak: "AESKey w1 = Some ak" "length ak \<in> {16, 24, 32}"
    and t: "clock w (ticks w) = t" "0 \<le> t" "t < 4294967296"
    and epoch: "fst (checkKeys c w') = Inr ()"
      "HMACKey (snd (checkKeys c w')) = Some hk" "AESKey (snd (checkKeys c w')) = Some ak"
  shows "\<exists>ticket. fst (issue pf self w) = Inr ticket \<and> length ticket = 112 \<and>
           fst (decrypt pf c ticket w') =
             Inr (Some \<lparr>identifier' = IDENTIFIER, masterKey = k, issueDate = t,
                        pad = replicate 10 0\<rparr>)"
proof -
  note D = SessionTicket_init_D [OF new]
  have k: "length k = 32"
    using D(1) by (simp add: MASTER_KEY_LENGTH_def)
  obtain d where d: "struct_pack_I (native_order pf) t = Inr d" "length d = 4"
    "struct_unpack_I (native_order pf) d = Inr t"
    using struct_pack_I_ok [OF t(2,3)] by blast
  let ?p = "d @ IDENTIFIER @ k @ replicate 10 0"
  let ?ct = "aes_cbc_encrypt pf ak (IV self) ?p"
  let ?tk = "IV self @ ?ct @ hmac_sha256 pf hk (IV self @ ?ct)"
  have i: "fst (issue pf self w) = Inr ?tk"
    using issue_ok [of self ak hk k "defaultIssueDate w1" pf w d] D ak hk k d t(1) by simp
  have "aes_args_ok ak (IV self) ?p"
    using ak D(2) d(2) k by (simp add: aes_args_ok_def)
  then have "length ?ct = 64"
    using pf d(2) k by (simp add: platform_ok_def)
  moreover have "length (hmac_sha256 pf hk (IV self @ ?ct)) = 32"
    using pf by (simp add: platform_ok_def)
  ultimately have l: "length ?tk = 112"
    using D(2) by simp
  have "fst (decrypt pf c ?tk w') = Inr (Some (ProtocolState_init k t))"
    using decrypt_ok [OF pf epoch ak(2) D(2) d(2) k d(3)] .
  then show ?thesis
    using i l by (simp add: ProtocolState_init_def)
qed

text \<open>
  The scenario of the specification: master key 32 bytes of \<open>0x11\<close>, issued at second
  1000000000, redeemed in the same epoch.
\<close>

theorem ticket_round_trip_witness:
  "\<exists>ticket. fst (issue demo_platform demo_ticket (demo_world 1000000000)) = Inr ticket \<and>
      length ticket = 112 \<and>
      fst (decrypt demo_platform demo_const ticket (demo_world 1000000000)) =
        Inr (Some \<lparr>identifier' = IDENTIFIER, masterKey = replicate 32 17,
                   issueDate = 1000000000, pad = replicate 10 0\<rparr>)"
proof -
  have new: "SessionTicket_init demo_const (replicate 32 17) (demo_world 1000000000) =
     (Inr demo_ticket, (demo_world 1000000000)\<lparr>ticks := 1, drawn := 16\<rparr>)"
    by (rule SessionTicket_init_demo_world) simp
  have ck: "checkKeys demo_const (demo_world 1000000000)
          = (Inr (), (demo_world 1000000000)\<lparr>ticks := 1\<rparr>)"
    by (rule checkKeys_demo_world) simp
  show ?thesis
    using ticket_round_trip [OF demo_platform_ok new, of "replicate 32 1" "replicate 16 2"
        "demo_world 1000000000" 1000000000 "demo_world 1000000000"]
    by (simp add: ck) (simp add: demo_world_def)
qed

text \<open>
  C3 (authentication failure is a rejection). Let the ticket have 112 bytes and let the key
  check of \<open>decrypt\<close> succeed and leave the authentication key \<open>hk\<close> in force. If the last
  32 bytes differ from the HMAC-SHA256 under \<open>hk\<close> of the first 80 bytes, \<open>decrypt\<close> returns
  \<open>None\<close>, and the one library call it makes is that HMAC: no cipher is set up, nothing is
  decrypted.
\<close>

theorem hmac_mismatch_rejected:
  assumes "length ticket = TICKET_LENGTH"
    and "fst (checkKeys c w) = Inr ()"
    and "HMACKey (snd (checkKeys c w)) = Some hk"
    and "hmac_sha256 pf hk (slice 0 80 ticket) \<noteq> slice 80 112 ticket"
  shows "fst (decrypt pf c ticket w) = Inr None \<and>
         calls (snd (decrypt pf c ticket w)) = calls w @ [Call_HMAC_digest]"
  using decrypt_hmac_mismatch [OF assms] by simp

text \<open>The all-zero buffer of 112 bytes, under the toy MAC.\<close>

theorem hmac_mismatch_rejected_witness:
  "fst (decrypt demo_platform demo_const (replicate 112 0) (demo_world 1000000000)) = Inr None \<and>
   calls (snd (decrypt demo_platform demo_const (replicate 112 0) (demo_world 1000000000)))
     = [Call_HMAC_digest]"
proof -
  have c: "calls (demo_world 1000000000) = []"
    by (simp add: calls_def demo_world_def)
  show ?thesis
    using hmac_mismatch_rejected [of "replicate 112 0" demo_const "demo_world 1000000000"
        "replicate 32 1" demo_platform] demo_zero_buffer_mac c
    by (simp add: checkKeys_demo_world_keys TICKET_LENGTH_def)
qed

text \<open>
  C4 (malformed length). The claim has \<open>decrypt\<close> return its rejection value for an input
  that is not 112 bytes long, without raising. The code asserts the length instead: on a
  111-byte buffer the assertion fails, and the result is not \<open>None\<close>.
\<close>

theorem wrong_length_not_rejected_counterexample:
  "fst (decrypt demo_platform demo_const (replicate 111 0) (demo_world 1000000000))
     = Inl AssertionError \<and>
   fst (decrypt demo_platform demo_const (replicate 111 0) (demo_world 1000000000))
     \<noteq> Inr None"
  by (simp add: decrypt_def TICKET_LENGTH_def)

text \<open>
  C4 as amended: on every input whose length is not 112, \<open>decrypt\<close> fails its length
  assertion and does nothing else: the world, with its keys, clock, key store and trace,
  is the one it was called in.
\<close>

theorem wrong_length_asserts:
  "length ticket \<noteq> TICKET_LENGTH \<Longrightarrow> decrypt pf c ticket w = (Inl AssertionError, w)"
  by (simp add: decrypt_def)

theorem wrong_length_asserts_witness:
  "decrypt demo_platform demo_const (replicate 113 0) (demo_world 1000000000)
     = (Inl AssertionError, demo_world 1000000000) \<and>
   decrypt demo_platform demo_const (replicate 111 0) (demo_world 1000000000)
     = (Inl AssertionError, demo_world 1000000000)"
  using wrong_length_asserts [of "replicate 113 0" demo_platform demo_const "demo_world 1000000000"]
    wrong_length_asserts [of "replicate 111 0" demo_platform demo_const "demo_world 1000000000"]
  by (simp add: TICKET_LENGTH_def)

text \<open>
  C6 (format mismatch). Let the ticket have 112 bytes and let the key check of \<open>decrypt\<close>
  leave the epoch \<open>(hk, ak)\<close> in force. If the HMAC verifies and bytes 4 to 21 of the
  decrypted state are not the identifier, \<open>decrypt\<close> returns \<open>None\<close>: the very value it
  returns, in the same world, for any 112-byte input whose HMAC does not verify.
\<close>

theorem format_mismatch_rejected:
  assumes "platform_ok pf"
    and "length ticket = TICKET_LENGTH"
    and "fst (checkKeys c w) = Inr ()"
    and "HMACKey (snd (checkKeys c w)) = Some hk"
    and "AESKey (snd (checkKeys c w)) = Some ak" "length ak \<in> {16, 24, 32}"
    and "hmac_sha256 pf hk (slice 0 80 ticket) = slice 80 112 ticket"
    and "slice 4 22 (aes_cbc_decrypt pf ak (slice 0 16 ticket) (slice 16 80 ticket))
           \<noteq> IDENTIFIER"
  shows "fst (decrypt pf c ticket w) = Inr None \<and>
         (\<forall>t'. length t' = TICKET_LENGTH \<and>
                hmac_sha256 pf hk (slice 0 80 t') \<noteq> slice 80 112 t' \<longrightarrow>
                fst (decrypt pf c t' w) = fst (decrypt pf c ticket w))"
  using decrypt_format_mismatch(1) [OF assms] decrypt_hmac_mismatch(1) [OF _ assms(3,4)]
  by simp

theorem format_mismatch_rejected_witness:
  "fst (decrypt demo_platform demo_const forged_ticket (demo_world 1000000000)) = Inr None \<and>
   fst (decrypt demo_platform demo_const (replicate 112 0) (demo_world 1000000000)) =
   fst (decrypt demo_platform demo_const forged_ticket (demo_world 1000000000))"
proof -
  have s: "slice 0 80 forged_ticket = replicate 80 0"
    "slice 80 112 forged_ticket = replicate 32 32"
    "slice 0 16 forged_ticket = replicate 16 0"
    "slice 16 80 forged_ticket = replicate 64 0"
    by (simp_all add: forged_ticket_def slice_def)
  have good: "hmac_sha256 demo_platform (replicate 32 1) (slice 0 80 forged_ticket)
        = slice 80 112 forged_ticket"
    by (simp add: s demo_platform_def sum_list_replicate)
  have "slice 4 22 (aes_cbc_decrypt demo_platform (replicate 16 2) (slice 0 16 forged_ticket)
          (slice 16 80 forged_ticket)) ! 0 \<noteq> IDENTIFIER ! 0"
    by (simp add: s demo_platform_def slice_replicate IDENTIFIER_def sum_list_replicate)
  then have fmt: "slice 4 22 (aes_cbc_decrypt demo_platform (replicate 16 2)
          (slice 0 16 forged_ticket) (slice 16 80 forged_ticket)) \<noteq> IDENTIFIER"
    by metis
  have len: "length forged_ticket = TICKET_LENGTH"
    by (simp add: forged_ticket_def TICKET_LENGTH_def)
  show ?thesis
    using format_mismatch_rejected [OF demo_platform_ok len
        checkKeys_demo_world_keys(1) checkKeys_demo_world_keys(2)
        checkKeys_demo_world_keys(3) _ good fmt, of 1000000000] demo_zero_buffer_mac
    by (simp add: TICKET_LENGTH_def)
qed

text \<open>
  C5 (IV freshness). Two ticket objects are built for the same master key, in any two
  worlds, and each is issued, in any world. If the random source gave the two objects
  different IVs, the two tickets differ, already in their first 16 bytes.
\<close>

theorem distinct_IVs_distinct_tickets:
  assumes "SessionTicket_init c k wa = (Inr s1, wa')"
    and "fst (issue pf s1 wb) = Inr t1"
    and "SessionTicket_init c k wc = (Inr s2, wc')"
    and "fst (issue pf s2 wd) = Inr t2"
    and "IV s1 \<noteq> IV s2"
  shows "take 16 t1 \<noteq> take 16 t2 \<and> t1 \<noteq> t2"
  using issue_prefix [OF assms(2)] issue_prefix [OF assms(4)] assms(5) by auto

theorem distinct_IVs_distinct_tickets_witness:
  "\<exists>t1 t2. fst (issue demo_platform demo_ticket (demo_world 1000000000)) = Inr t1 \<and>
           fst (issue demo_platform demo_ticket2 (demo_world 1000000000)) = Inr t2 \<and>
           take 16 t1 \<noteq> take 16 t2 \<and> t1 \<noteq> t2"
proof -
  have c: "clock (demo_world 1000000000) (ticks (demo_world 1000000000)) = 1000000000"
    by (simp add: demo_world_def)
  obtain t1 where i1: "fst (issue demo_platform demo_ticket (demo_world 1000000000)) = Inr t1"
    using issue_demo [OF _ c, of demo_ticket] by auto
  obtain t2 where i2: "fst (issue demo_platform demo_ticket2 (demo_world 1000000000)) = Inr t2"
    using issue_demo [OF _ c, of demo_ticket2] by auto
  have n1: "SessionTicket_init demo_const (replicate 32 17) (demo_world 1000000000) =
     (Inr demo_ticket, (demo_world 1000000000)\<lparr>ticks := 1, drawn := 16\<rparr>)"
    by (rule SessionTicket_init_demo_world) simp
  have n2: "SessionTicket_init demo_const (replicate 32 17)
       ((demo_world 1000000000)\<lparr>ticks := 1, drawn := 16\<rparr>) =
     (Inr demo_ticket2, (demo_world 1000000000)\<lparr>ticks := 2, drawn := 32\<rparr>)"
    by (rule SessionTicket_init_demo_world2) simp
  have "IV demo_ticket ! 0 \<noteq> IV demo_ticket2 ! 0"
    by (simp add: demo_ticket_def demo_ticket2_def)
  then have ne: "IV demo_ticket \<noteq> IV demo_ticket2"
    by metis
  show ?thesis
    using distinct_IVs_distinct_tickets [OF n1 i1 n2 i2 ne] i1 i2 by blast
qed

text \<open>
  C8 (length and layout of a ticket). Let a ticket object be built for the master key \<open>k\<close>
  (32 bytes, or the constructor fails) while the epoch \<open>(hk, ak)\<close> is active, and let
  \<open>issue\<close> read a clock value that fits an unsigned 32-bit integer. Then \<open>issue\<close> returns
  112 bytes: the 16-byte IV, the 64-byte encryption under \<open>ak\<close> and that IV of the 64-byte
  state (4 bytes of issue date, the identifier, \<open>k\<close>, 10 zero bytes), and the 32-byte
  HMAC under \<open>hk\<close> of the first 80 bytes.
\<close>

theorem issue_layout:
  assumes pf: "platform_ok pf"
    and new: "SessionTicket_init c k w0 = (Inr self, w1)"
    and hk: "HMACKey w1 = Some hk"
    and ak: "AESKey w1 = Some ak" "length ak \<in> {16, 24, 32}"
    and t: "0 \<le> clock w (ticks w)" "clock w (ticks w) < 4294967296"
  shows "\<exists>iv ct tag d.
           fst (issue pf self w) = Inr (iv @ ct @ tag) \<and> length (iv @ ct @ tag) = 112 \<and>
           iv = IV self \<and> length iv = 16 \<and>
           ct = aes_cbc_encrypt pf ak iv (d @ IDENTIFIER @ k @ replicate 10 0) \<and> length ct = 64 \<and>
           struct_pack_I (native_order pf) (clock w (ticks w)) = Inr d \<and> length d = 4 \<and>
           length k = 32 \<and> length (d @ IDENTIFIER @ k @ replicate 10 0) = 64 \<and>
           tag = hmac_sha256 pf hk (slice 0 80 (iv @ ct @ tag)) \<and> length tag = 32"
proof -
  note D = SessionTicket_init_D [OF new]
  have k: "length k = 32"
    using D(1) by (simp add: MASTER_KEY_LENGTH_def)
  obtain d where d: "struct_pack_I (native_order pf) (clock w (ticks w)) = Inr d" "length d = 4"
    using struct_pack_I_ok [OF t] by blast
  let ?p = "d @ IDENTIFIER @ k @ replicate 10 0"
  let ?ct = "aes_cbc_encrypt pf ak (IV self) ?p"
  let ?tag = "hmac_sha256 pf hk (IV self @ ?ct)"
  have i: "fst (issue pf self w) = Inr (IV self @ ?ct @ ?tag)"
    using issue_ok [of self ak hk k "defaultIssueDate w1" pf w d] D ak hk k d by simp
  have "aes_args_ok ak (IV self) ?p"
    using ak D(2) d(2) k by (simp add: aes_args_ok_def)
  then have lct: "length ?ct = 64"
    using pf d(2) k by (simp add: platform_ok_def)
  have ltag: "length ?tag = 32"
    using pf by (simp add: platform_ok_def)
  have s: "slice 0 80 (IV self @ ?ct @ ?tag) = IV self @ ?ct"
    using D(2) lct by (simp add: slice_def)
  show ?thesis
    using i lct ltag D(2) d k s by simp
qed

theorem issue_layout_witness:
  "\<exists>iv ct tag. fst (issue demo_platform demo_ticket (demo_world 1000000000)) = Inr (iv @ ct @ tag) \<and>
     length (iv @ ct @ tag) = 112 \<and> length iv = 16 \<and> length ct = 64 \<and> length tag = 32"
proof -
  have n1: "SessionTicket_init demo_const (replicate 32 17) (demo_world 1000000000) =
     (Inr demo_ticket, (demo_world 1000000000)\<lparr>ticks := 1, drawn := 16\<rparr>)"
    by (rule SessionTicket_init_demo_world) simp
  have "\<exists>iv ct tag d.
           fst (issue demo_platform demo_ticket (demo_world 1000000000)) = Inr (iv @ ct @ tag) \<and>
           length (iv @ ct @ tag) = 112 \<and>
           iv = IV demo_ticket \<and> length iv = 16 \<and>
           ct = aes_cbc_encrypt demo_platform (replicate 16 2) iv
                  (d @ IDENTIFIER @ replicate 32 17 @ replicate 10 0) \<and> length ct = 64 \<and>
           struct_pack_I (native_order demo_platform)
             (clock (demo_world 1000000000) (ticks (demo_world 1000000000))) = Inr d \<and>
           length d = 4 \<and>
           length (replicate 32 17 :: bytes) = 32 \<and>
           length (d @ IDENTIFIER @ replicate 32 17 @ replicate 10 0) = 64 \<and>
           tag = hmac_sha256 demo_platform (replicate 32 1) (slice 0 80 (iv @ ct @ tag)) \<and>
           length tag = 32"
    by (rule issue_layout [OF demo_platform_ok n1]) (simp_all add: demo_world_def)
  then show ?thesis
    by blast
qed

text \<open>
  C10 (a ticket object is a snapshot). Let a ticket object be built for the master key
  \<open>k\<close>, let \<open>issue\<close> be called on it, and again on the object the first call leaves, in
  any two worlds, and let both calls return a ticket. The first ticket is built from the
  object's IV and from the two keys that were the globals when the object was built; it is
  the same whatever keys the world holds when \<open>issue\<close> runs, also after a key rotation that
  reads the same clock value. Both tickets begin with the object's IV, and they are equal
  byte for byte when the two calls read the same clock value.
\<close>

theorem ticket_object_snapshot:
  assumes new: "SessionTicket_init c k w0 = (Inr self, w1)"
    and i1: "issue pf self wa = (Inr t1, self1, wa')"
    and i2: "issue pf self1 wb = (Inr t2, self2, wb')"
  shows "(\<exists>ak hk d. AESKey w1 = Some ak \<and> HMACKey w1 = Some hk \<and>
            struct_pack_I (native_order pf) (clock wa (ticks wa)) = Inr d \<and>
            t1 = IV self
                 @ aes_cbc_encrypt pf ak (IV self) (d @ IDENTIFIER @ k @ replicate 10 0)
                 @ hmac_sha256 pf hk
                     (IV self
                      @ aes_cbc_encrypt pf ak (IV self) (d @ IDENTIFIER @ k @ replicate 10 0))) \<and>
         fst (issue pf self (wa\<lparr>HMACKey := h, AESKey := a, creationTime := ct\<rparr>)) = Inr t1 \<and>
         (clock (rotateKeys wa) (ticks (rotateKeys wa)) = clock wa (ticks wa) \<longrightarrow>
            fst (issue pf self (rotateKeys wa)) = Inr t1) \<and>
         take 16 t1 = IV self \<and> take 16 t2 = IV self \<and>
         (clock wb (ticks wb) = clock wa (ticks wa) \<longrightarrow> t2 = t1)"
proof -
  note D = SessionTicket_init_D [OF new]
  have f1: "fst (issue pf self wa) = Inr t1"
    using i1 by simp
  have "self1 = stamp (clock wa (ticks wa)) self"
    using issue_object [of pf self wa] i1 by simp
  then have f2: "fst (issue pf self wb) = Inr t2"
    using i2 by (simp add: issue_stamp)
  have a: "fst (issue pf self (wa\<lparr>HMACKey := h, AESKey := a, creationTime := ct\<rparr>)) = Inr t1"
    using issue_fst_cong [of "wa\<lparr>HMACKey := h, AESKey := a, creationTime := ct\<rparr>" wa pf self] f1
    by simp
  have b: "fst (issue pf self (rotateKeys wa)) = Inr t1"
    if "clock (rotateKeys wa) (ticks (rotateKeys wa)) = clock wa (ticks wa)"
    using issue_fst_cong [OF that, of pf self] f1 by simp
  have c: "t2 = t1" if "clock wb (ticks wb) = clock wa (ticks wa)"
    using issue_fst_cong [OF that, of pf self] f1 f2 by simp
  have e: "\<exists>ak hk d. AESKey w1 = Some ak \<and> HMACKey w1 = Some hk \<and>
            struct_pack_I (native_order pf) (clock wa (ticks wa)) = Inr d \<and>
            t1 = IV self
                 @ aes_cbc_encrypt pf ak (IV self) (d @ IDENTIFIER @ k @ replicate 10 0)
                 @ hmac_sha256 pf hk
                     (IV self
                      @ aes_cbc_encrypt pf ak (IV self) (d @ IDENTIFIER @ k @ replicate 10 0))"
    using issue_Inr_D [OF f1] D(3,4,5) by (auto simp: ProtocolState_init_def)
  show ?thesis
    using e issue_prefix [OF f1] issue_prefix [OF f2] a b c by blast
qed

text \<open>
  The second call runs after a key rotation: the world's AES key is no longer the object's,
  and the ticket is the same.
\<close>

theorem ticket_object_snapshot_witness:
  "\<exists>t. fst (issue demo_platform demo_ticket (demo_world 1000000000)) = Inr t \<and>
       fst (issue demo_platform
              (fst (snd (issue demo_platform demo_ticket (demo_world 1000000000))))
              (rotateKeys (demo_world 1000000000))) = Inr t \<and>
       take 16 t = IV demo_ticket \<and>
       AESKey (rotateKeys (demo_world 1000000000)) \<noteq> symmTicketKey demo_ticket"
proof -
  let ?W = "demo_world 1000000000"
  have n1: "SessionTicket_init demo_const (replicate 32 17) ?W =
     (Inr demo_ticket, ?W\<lparr>ticks := 1, drawn := 16\<rparr>)"
    by (rule SessionTicket_init_demo_world) simp
  have c: "clock ?W (ticks ?W) = 1000000000"
    by (simp add: demo_world_def)
  have c': "clock (rotateKeys ?W) (ticks (rotateKeys ?W)) = 1000000000"
    by (simp add: rotateKeys_fields) (simp add: demo_world_def)
  obtain t1 where f1: "fst (issue demo_platform demo_ticket ?W) = Inr t1"
    using issue_demo [OF _ c, of demo_ticket] by auto
  obtain self1 wa' where i1: "issue demo_platform demo_ticket ?W = (Inr t1, self1, wa')"
    using f1 by (cases "issue demo_platform demo_ticket ?W") auto
  have s1: "self1 = stamp 1000000000 demo_ticket"
    using issue_object [of demo_platform demo_ticket ?W] i1 c by simp
  obtain t2 where f2: "fst (issue demo_platform self1 (rotateKeys ?W)) = Inr t2"
    using issue_demo [OF _ c', of demo_ticket] by (auto simp: s1 issue_stamp)
  obtain self2 wb' where i2: "issue demo_platform self1 (rotateKeys ?W) = (Inr t2, self2, wb')"
    using f2 by (cases "issue demo_platform self1 (rotateKeys ?W)") auto
  have "the (AESKey (rotateKeys ?W)) ! 0 \<noteq> the (symmTicketKey demo_ticket) ! 0"
    by (simp add: rotateKeys_fields demo_ticket_def) (simp add: demo_world_def)
  then have ne: "AESKey (rotateKeys ?W) \<noteq> symmTicketKey demo_ticket"
    by metis
  show ?thesis
    using ticket_object_snapshot [OF n1 i1 i2] i1 i2 c c' ne by auto
qed

text \<open>
  C7 (expiry check). The claim reads "for every record". A record whose issue date is 0
  fails the method's own \<open>assert self.issueDate\<close>: at clock 100 and a lifetime of 604800
  the inequality of the claim holds, and the call raises instead of returning true.
\<close>

theorem isValid_zero_issueDate_counterexample:
  "fst (isValid demo_const (demo_state 0) (demo_world 100)) = Inl AssertionError \<and>
   clock (demo_world 100) (ticks (demo_world 100)) - issueDate (demo_state 0)
     \<le> SESSION_TICKET_LIFETIME demo_const"
  by (simp add: isValid_def demo_state_def ProtocolState_init_def demo_world_def demo_const_def)

text \<open>
  C7 as amended: for every record whose issue date is not 0 (and as long as the distance
  between the ticket's age and the lifetime stays below the 10^9 days a
  \<open>datetime.timedelta\<close> can hold, which is so for all 32-bit timestamps and lifetimes),
  \<open>isValid\<close> returns true exactly when \<open>now - issueDate \<le> SESSION_TICKET_LIFETIME\<close>, the
  inequality being applied as it stands to a negative age. The answer is the same whatever
  keys and key creation time the world holds; the call leaves them as they are and makes
  no library call.
\<close>

theorem isValid_expiry:
  assumes "issueDate self \<noteq> 0"
    and "timedelta_ok \<bar>clock w (ticks w) - issueDate self - SESSION_TICKET_LIFETIME c\<bar>"
  shows "fst (isValid c self w)
           = Inr (clock w (ticks w) - issueDate self \<le> SESSION_TICKET_LIFETIME c) \<and>
         fst (isValid c self (w\<lparr>HMACKey := h, AESKey := a, creationTime := t\<rparr>))
           = fst (isValid c self w) \<and>
         HMACKey (snd (isValid c self w)) = HMACKey w \<and>
         AESKey (snd (isValid c self w)) = AESKey w \<and>
         creationTime (snd (isValid c self w)) = creationTime w \<and>
         calls (snd (isValid c self w)) = calls w"
proof -
  have "fst (isValid c self (w\<lparr>HMACKey := h, AESKey := a, creationTime := t\<rparr>))
           = Inr (clock w (ticks w) - issueDate self \<le> SESSION_TICKET_LIFETIME c)"
    using isValid_result [of self "w\<lparr>HMACKey := h, AESKey := a, creationTime := t\<rparr>" c] assms
    by simp
  moreover have "calls (w\<lparr>ticks := Suc (ticks w)\<rparr>) = calls w"
    by (simp add: calls_def)
  ultimately show ?thesis
    using isValid_result [OF assms] by simp
qed

text \<open>
  A record issued at second 1000000000 under a lifetime of 604800 seconds: valid at the
  issue date, valid one second before the lifetime ends, expired one second after it, and
  valid when the clock is one second behind the issue date.
\<close>

theorem isValid_expiry_witness:
  "fst (isValid demo_const (demo_state 1000000000) (demo_world 1000000000)) = Inr True \<and>
   fst (isValid demo_const (demo_state 1000000000) (demo_world 1000604799)) = Inr True \<and>
   fst (isValid demo_const (demo_state 1000000000) (demo_world 1000604801)) = Inr False \<and>
   fst (isValid demo_const (demo_state 1000000000) (demo_world 999999999)) = Inr True"
  using isValid_expiry [of "demo_state 1000000000" "demo_world 1000000000" demo_const]
    isValid_expiry [of "demo_state 1000000000" "demo_world 1000604799" demo_const]
    isValid_expiry [of "demo_state 1000000000" "demo_world 1000604801" demo_const]
    isValid_expiry [of "demo_state 1000000000" "demo_world 999999999" demo_const]
  by (simp add: demo_state_def ProtocolState_init_def demo_world_def demo_const_def
      timedelta_ok_def)

text \<open>
  C2 (key rotation continuity). The code run on the failing input: keys created at second
  999999000, a rotation interval of 604800 seconds, a ticket built and issued at second
  1000000000 and redeemed at the next clock reading. When that reading is 1000603800, the
  last second of the epoch, \<open>decrypt\<close> accepts the ticket. When it is 1000603801,
  \<open>decrypt\<close> returns \<open>None\<close>: its key check has rotated the keys, and \<open>rotateKeys\<close> keeps
  no copy of the old ones (lemma \<open>rotateKeys_forgets\<close>).
\<close>

theorem rotation_drops_old_epoch:
  "issue_then_redeem demo_platform demo_const (replicate 32 17) (late_world 1000603800)
     = Inr (Some (ProtocolState_init (replicate 32 17) 1000000000)) \<and>
   issue_then_redeem demo_platform demo_const (replicate 32 17) (late_world 1000603801)
     = Inr None"
proof
  obtain d w2 where d: "length d = 4" "struct_unpack_I LittleEndian d = Inr 1000000000"
    and r: "issue_then_redeem demo_platform demo_const (replicate 32 17) (late_world 1000603800) =
       fst (decrypt demo_platform demo_const
              (map of_nat [0..<16]
               @ aes_cbc_encrypt demo_platform (replicate 16 2) (map of_nat [0..<16])
                   (d @ IDENTIFIER @ replicate 32 17 @ replicate 10 0)
               @ hmac_sha256 demo_platform (replicate 32 1)
                   (map of_nat [0..<16]
                    @ aes_cbc_encrypt demo_platform (replicate 16 2) (map of_nat [0..<16])
                        (d @ IDENTIFIER @ replicate 32 17 @ replicate 10 0))) w2)"
    and f: "HMACKey w2 = Some (replicate 32 1)" "AESKey w2 = Some (replicate 16 2)"
      "creationTime w2 = Some 999999000" "clock w2 (ticks w2) = 1000603800"
    using late_world_run [of 1000603800] by metis
  have ck: "checkKeys demo_const w2 = (Inr (), w2\<lparr>ticks := Suc (ticks w2)\<rparr>)"
    using checkKeys_same_epoch [OF f(1,2,3), of demo_const] f(4) by (simp add: demo_const_def)
  have "native_order demo_platform = LittleEndian"
    by (simp add: demo_platform_def)
  then show "issue_then_redeem demo_platform demo_const (replicate 32 17) (late_world 1000603800)
     = Inr (Some (ProtocolState_init (replicate 32 17) 1000000000))"
    unfolding r
    using decrypt_ok [OF demo_platform_ok, of demo_const w2 "replicate 32 1" "replicate 16 2"
        "map of_nat [0..<16]" d "replicate 32 17" 1000000000] d f
    by (simp add: ck)
next
  obtain d w2 where d: "length d = 4"
    and r: "issue_then_redeem demo_platform demo_const (replicate 32 17) (late_world 1000603801) =
       fst (decrypt demo_platform demo_const
              (map of_nat [0..<16]
               @ aes_cbc_encrypt demo_platform (replicate 16 2) (map of_nat [0..<16])
                   (d @ IDENTIFIER @ replicate 32 17 @ replicate 10 0)
               @ hmac_sha256 demo_platform (replicate 32 1)
                   (map of_nat [0..<16]
                    @ aes_cbc_encrypt demo_platform (replicate 16 2) (map of_nat [0..<16])
                        (d @ IDENTIFIER @ replicate 32 17 @ replicate 10 0))) w2)"
    and f: "HMACKey w2 = Some (replicate 32 1)" "AESKey w2 = Some (replicate 16 2)"
      "creationTime w2 = Some 999999000" "clock w2 (ticks w2) = 1000603801"
      "entropy w2 = of_nat" "drawn w2 = 16"
    using late_world_run [of 1000603801] by metis
  let ?iv = "map of_nat [0..<16] :: bytes"
  let ?ct = "aes_cbc_encrypt demo_platform (replicate 16 2) ?iv
               (d @ IDENTIFIER @ replicate 32 17 @ replicate 10 0)"
  let ?tag = "hmac_sha256 demo_platform (replicate 32 1) (?iv @ ?ct)"
  let ?t = "?iv @ ?ct @ ?tag"
  have ck: "checkKeys demo_const w2 = (Inr (), rotateKeys (w2\<lparr>ticks := Suc (ticks w2)\<rparr>))"
    using checkKeys_expired [OF f(1,2,3), of demo_const] f(4) by (simp add: demo_const_def)
  have hk: "HMACKey (snd (checkKeys demo_const w2)) = Some (map of_nat [16..<48])"
    using f(5,6) by (simp add: ck rotateKeys_fields)
  have lct: "length ?ct = 64"
    using d by (simp add: demo_platform_def)
  have lt: "length ?t = TICKET_LENGTH"
    using lct by (simp add: TICKET_LENGTH_def demo_platform_def)
  have s: "slice 0 80 ?t = ?iv @ ?ct" "slice 80 112 ?t = ?tag"
    using lct by (simp_all add: slice_def) (simp add: demo_platform_def)
  have m: "hmac_sha256 demo_platform (map of_nat [16..<48]) (slice 0 80 ?t) \<noteq> slice 80 112 ?t"
    unfolding s by (simp add: demo_platform_def demo_sum2 sum_list_replicate)
  show "issue_then_redeem demo_platform demo_const (replicate 32 17) (late_world 1000603801)
     = Inr None"
    unfolding r
    using decrypt_hmac_mismatch(1) [OF lt _ hk m] by (simp add: ck)
qed

text \<open>
  C9 (persistence failure). The code run on the failing input: a process with no keys in
  memory whose key-store file exists and cannot be opened. \<open>loadKeys\<close> logs the
  \<open>IOError\<close> and leaves the three globals \<open>None\<close>; the subtraction
  \<open>int(time.time()) - creationTime\<close> in \<open>checkKeys\<close> then raises \<open>TypeError\<close>, out of
  \<open>decrypt\<close> and out of the constructor of \<open>SessionTicket\<close>. (A key store that cannot be
  written is recovered from: lemma \<open>unwritable_store_recovers\<close>.)
\<close>

theorem unreadable_store_crashes:
  "fst (checkKeys demo_const (fresh_world Unreadable)) = Inl TypeError \<and>
   fst (decrypt demo_platform demo_const (replicate 112 0) (fresh_world Unreadable))
     = Inl TypeError \<and>
   fst (SessionTicket_init demo_const (replicate 32 17) (fresh_world Unreadable))
     = Inl TypeError"
proof -
  have c: "fst (checkKeys demo_const (fresh_world Unreadable)) = Inl TypeError"
    by (rule checkKeys_unreadable) (simp_all add: fresh_world_def)
  show ?thesis
    using c decrypt_key_check_fails [OF _ c, of "replicate 112 0" demo_platform]
      SessionTicket_init_key_check_fails [OF _ c, of "replicate 32 17"]
    by (simp add: TICKET_LENGTH_def MASTER_KEY_LENGTH_def)
qed

end
